theory Spec2Isabelle
  imports Complex_Main "HOL-Library.Sublist"
begin

section \<open>The rotary phone guestbook (app.py)\<close>

text \<open>
  The program drives a three-state call model from two polling loops and starts
  \<^verbatim>\<open>play\<close> and \<^verbatim>\<open>rec\<close> as operating-system processes. The model keeps
  the file system, the process table and the two audio objects inside one record, passes
  it through every method, and returns a raised exception together with the state in
  which it was raised.

  What the model takes from outside the source file:
  \<^item> \<^verbatim>\<open>subprocess.Popen\<close> starts a process and returns its handle (a failure to
    start the program is not modelled); \<^verbatim>\<open>terminate\<close> followed by
    \<^verbatim>\<open>wait\<close> leaves the process not running;
  \<^item> the state-machine library raises \<^verbatim>\<open>TransitionNotAllowed\<close> for an event
    with no transition from the current state, and for an allowed one runs the exit
    callback of the source state, changes the state, then runs the enter callback of the
    target state; a self-transition declared with \<^verbatim>\<open>idle.to(idle)\<close> runs both
    callbacks. An event is modelled as invoked while no other transition is running and
    is run to its end in the invoking thread; what the library does with an event that
    one thread invokes during a transition of the other is not modelled;
  \<^item> clock readings are rational numbers (every float is one), and the subtraction of
    two readings is exact;
  \<^item> calls of \<^verbatim>\<open>logging\<close> are left out.
\<close>

subsection \<open>Data\<close>

datatype error = AttributeError | TransitionNotAllowed | FileExistsError | TypeError

datatype kind = File | Dir

record proc =
  command :: "string list"
  running :: bool

text \<open>
  \<^verbatim>\<open>BaseAudio\<close>: the constructor sets \<^verbatim>\<open>current_process = None\<close>;
  \<^verbatim>\<open>_execute\<close> assigns the attribute \<^verbatim>\<open>current_recording_process\<close>, which
  does not exist before (here: \<open>None\<close>).
\<close>

record base_audio =
  current_process :: "nat option"
  current_recording_process :: "nat option"

datatype role = Player | Recorder

datatype call_state = Idle | Dialing | Answering

datatype event = Pickup | Dial string | Answer | Hang_up

text \<open>
  The field \<open>calls\<close> is a log of the invocations made on the audio objects and on the
  machine, in order; the program has no such list, it is kept to say which calls an
  execution makes.
\<close>

datatype call = Stop role | Play string | Wait role | Record string | Fired event

record phone =
  current_state :: call_state
  audio_player :: base_audio
  audio_recorder :: base_audio
  earpiece_queue :: "nat list"
  fs :: "(string \<times> kind) list"
  procs :: "proc list"
  calls :: "call list"

type_synonym outcome = "error option \<times> phone"

definition then_run :: "outcome \<Rightarrow> (phone \<Rightarrow> outcome) \<Rightarrow> outcome" where
  "then_run r f = (case r of (None, ph) \<Rightarrow> f ph | (Some err, ph) \<Rightarrow> (Some err, ph))"

subsection \<open>Files and processes\<close>

definition exists_path :: "(string \<times> kind) list \<Rightarrow> string \<Rightarrow> bool" where
  "exists_path files p = (p \<in> set (map fst files))"

text \<open>
  \<^verbatim>\<open>Path.mkdir(parents=True, exist_ok=True)\<close> on a path of one component: nothing
  happens when the directory is there, \<^verbatim>\<open>FileExistsError\<close> when the name is taken
  by something that is not a directory.
\<close>

definition mkdir :: "string \<Rightarrow> phone \<Rightarrow> outcome" where
  "mkdir p ph =
     (case map_of (fs ph) p of
        Some Dir \<Rightarrow> (None, ph)
      | Some File \<Rightarrow> (Some FileExistsError, ph)
      | None \<Rightarrow> (None, ph\<lparr>fs := fs ph @ [(p, Dir)]\<rparr>))"

definition Popen :: "string list \<Rightarrow> proc list \<Rightarrow> nat \<times> proc list" where
  "Popen cmd ps = (length ps, ps @ [\<lparr>command = cmd, running = True\<rparr>])"

definition terminate :: "nat \<Rightarrow> proc list \<Rightarrow> proc list" where
  "terminate pid ps = (if pid < length ps then ps[pid := (ps ! pid)\<lparr>running := False\<rparr>] else ps)"

text \<open>Decimal rendering of a non-negative integer, as \<^verbatim>\<open>str\<close> and an f-string give it.\<close>

definition digit_char :: "nat \<Rightarrow> char" where
  "digit_char n = ''0123456789'' ! n"

fun str :: "nat \<Rightarrow> string" where
  "str n = (if n < 10 then [digit_char n] else str (n div 10) @ [digit_char (n mod 10)])"

declare str.simps [simp del]

subsection \<open>BaseAudio\<close>

definition audio :: "role \<Rightarrow> phone \<Rightarrow> base_audio" where
  "audio r ph = (case r of Player \<Rightarrow> audio_player ph | Recorder \<Rightarrow> audio_recorder ph)"

definition set_audio :: "role \<Rightarrow> base_audio \<Rightarrow> phone \<Rightarrow> phone" where
  "set_audio r a ph =
     (case r of Player \<Rightarrow> ph\<lparr>audio_player := a\<rparr> | Recorder \<Rightarrow> ph\<lparr>audio_recorder := a\<rparr>)"

definition execute :: "role \<Rightarrow> string list \<Rightarrow> phone \<Rightarrow> phone" where
  "execute r cmd ph =
     (case Popen cmd (procs ph) of
        (process, ps) \<Rightarrow>
          set_audio r ((audio r ph)\<lparr>current_recording_process := Some process\<rparr>)
            (ph\<lparr>procs := ps\<rparr>))"

definition stop :: "role \<Rightarrow> phone \<Rightarrow> phone" where
  "stop r ph =
     (let ph0 = ph\<lparr>calls := calls ph @ [Stop r]\<rparr> in
      case current_process (audio r ph0) of
        None \<Rightarrow> ph0
      | Some pid \<Rightarrow>
          set_audio r ((audio r ph0)\<lparr>current_process := None\<rparr>)
            (ph0\<lparr>procs := terminate pid (procs ph0)\<rparr>))"

text \<open>\<^verbatim>\<open>self.current_process.wait()\<close>: on \<open>None\<close> the attribute lookup raises.\<close>

definition wait :: "role \<Rightarrow> phone \<Rightarrow> outcome" where
  "wait r ph =
     (let ph0 = ph\<lparr>calls := calls ph @ [Wait r]\<rparr> in
      case current_process (audio r ph0) of
        None \<Rightarrow> (Some AttributeError, ph0)
      | Some pid \<Rightarrow> (None, ph0\<lparr>procs := terminate pid (procs ph0)\<rparr>))"

subsection \<open>AudioRecorder\<close>

definition mp3_path :: "string \<Rightarrow> nat \<Rightarrow> string" where
  "mp3_path folder_path index = folder_path @ ''/'' @ str index @ ''.mp3''"

text \<open>
  \<^verbatim>\<open>get_unique_filename\<close>: the loop counts up from 1 until the name is free. It
  ends because the listing is finite and different indices give different names.
\<close>

definition digit_value :: "char \<Rightarrow> nat" where
  "digit_value c = of_char c - 48"

definition int_of_str :: "string \<Rightarrow> nat" where
  "int_of_str s = foldl (\<lambda>a c. 10 * a + digit_value c) 0 s"

function get_unique_filename_from :: "(string \<times> kind) list \<Rightarrow> string \<Rightarrow> nat \<Rightarrow> string" where
  "get_unique_filename_from files folder_path index =
     (if \<not> exists_path files (mp3_path folder_path index) then mp3_path folder_path index
      else get_unique_filename_from files folder_path (index + 1))"
  by pat_completeness auto
termination
proof (relation "measure (\<lambda>(files, folder_path, index).
         card {k. index \<le> k \<and> exists_path files (mp3_path folder_path k)})")
  show "wf (measure (\<lambda>(files, folder_path, index).
         card {k. index \<le> k \<and> exists_path files (mp3_path folder_path k)}))"
    by simp
next
  fix files :: "(string \<times> kind) list" and folder_path :: string and index :: nat
  assume taken: "\<not> \<not> exists_path files (mp3_path folder_path index)"
  let ?S = "\<lambda>i. {k. i \<le> k \<and> exists_path files (mp3_path folder_path k)}"
  have digit: "digit_value (digit_char n) = n" if "n < 10" for n
  proof -
    from that consider "n = 0" | "n = 1" | "n = 2" | "n = 3" | "n = 4" | "n = 5"
      | "n = 6" | "n = 7" | "n = 8" | "n = 9"
      by atomize_elim arith
    then show ?thesis
      by cases (simp_all add: digit_value_def digit_char_def)
  qed
  have round_trip: "int_of_str (str n) = n" for n
  proof (induction n rule: str.induct)
    case (1 n)
    show ?case
    proof (cases "n < 10")
      case True
      then show ?thesis
        by (subst str.simps) (simp add: int_of_str_def digit)
    next
      case False
      with 1 have "int_of_str (str (n div 10)) = n div 10"
        by simp
      with False show ?thesis
        by (subst str.simps) (simp add: int_of_str_def digit)
    qed
  qed
  have "str m = str n \<Longrightarrow> m = n" for m n
    by (metis round_trip)
  then have inj: "inj (mp3_path folder_path)"
    by (intro injI) (simp add: mp3_path_def)
  have "?S index \<subseteq> mp3_path folder_path -` set (map fst files)"
    by (auto simp: exists_path_def)
  moreover have "finite (mp3_path folder_path -` set (map fst files))"
    by (rule finite_vimageI) (simp_all add: inj)
  ultimately have fin: "finite (?S index)"
    by (rule finite_subset)
  have "index \<in> ?S index" "index \<notin> ?S (index + 1)"
    using taken by simp_all
  moreover have "?S (index + 1) \<subseteq> ?S index"
    by auto
  ultimately have "?S (index + 1) \<subset> ?S index"
    by blast
  with fin have "card (?S (index + 1)) < card (?S index)"
    by (rule psubset_card_mono)
  then show "((files, folder_path, index + 1), (files, folder_path, index))
      \<in> measure (\<lambda>(files, folder_path, index).
         card {k. index \<le> k \<and> exists_path files (mp3_path folder_path k)})"
    by simp
qed

declare get_unique_filename_from.simps [simp del]

definition get_unique_filename :: "(string \<times> kind) list \<Rightarrow> string \<Rightarrow> string" where
  "get_unique_filename files folder_path = get_unique_filename_from files folder_path 1"

text \<open>
  \<^verbatim>\<open>AudioRecorder.record\<close>. \<^verbatim>\<open>Path(number)\<close> is the string itself for the
  strings the dial loop builds (decimal digits, at least one), and
  \<^verbatim>\<open>folder_path / name\<close> puts a slash between the two.
\<close>

definition recorder_record :: "string \<Rightarrow> phone \<Rightarrow> outcome" where
  "recorder_record number ph =
     then_run (mkdir number (ph\<lparr>calls := calls ph @ [Record number]\<rparr>))
       (\<lambda>ph1. (None, execute Recorder
                  [''rec'', ''-t'', ''mp3'', get_unique_filename (fs ph1) number] ph1))"

subsection \<open>AudioPlayer\<close>

text \<open>The first component says whether \<^verbatim>\<open>play\<close> returned \<^verbatim>\<open>self\<close> (else \<^verbatim>\<open>None\<close>).\<close>

definition play :: "string \<Rightarrow> phone \<Rightarrow> bool \<times> phone" where
  "play file ph =
     (let ph0 = ph\<lparr>calls := calls ph @ [Play file]\<rparr> in
      if \<not> exists_path (fs ph0) file then (False, ph0)
      else (True, execute Player [''play'', file] (stop Player ph0)))"

definition player_dial :: "phone \<Rightarrow> phone" where
  "player_dial ph = snd (play ''dial.mp3'' ph)"

definition beep :: "phone \<Rightarrow> phone" where
  "beep ph = snd (play ''beep.mp3'' ph)"

subsection \<open>Phone: callbacks and events\<close>

definition on_enter_idle :: "phone \<Rightarrow> phone" where
  "on_enter_idle ph = stop Player (stop Recorder ph)"

definition on_exit_idle :: "phone \<Rightarrow> phone" where
  "on_exit_idle ph = ph"

definition on_enter_dialing :: "phone \<Rightarrow> phone" where
  "on_enter_dialing ph = player_dial ph"

definition on_exit_dialing :: "phone \<Rightarrow> phone" where
  "on_exit_dialing ph = stop Player ph"

text \<open>
  \<^verbatim>\<open>self.audio_player.play("beep-long.mp3").wait()\<close>: when \<^verbatim>\<open>play\<close> returned
  \<^verbatim>\<open>None\<close> the call of \<^verbatim>\<open>wait\<close> on it raises.
\<close>

definition on_enter_answering :: "string \<Rightarrow> phone \<Rightarrow> outcome" where
  "on_enter_answering number ph =
     (case play ''beep-long.mp3'' ph of
        (False, ph1) \<Rightarrow> (Some AttributeError, ph1)
      | (True, ph1) \<Rightarrow> then_run (wait Player ph1) (recorder_record number))"

text \<open>The transition table, lines 83 to 86.\<close>

fun target :: "call_state \<Rightarrow> event \<Rightarrow> call_state option" where
  "target Idle Pickup = Some Dialing"
| "target Dialing (Dial number) = Some Answering"
| "target Answering Answer = Some Idle"
| "target s Hang_up = Some Idle"
| "target s ev = None"

definition allowed :: "call_state \<Rightarrow> event \<Rightarrow> bool" where
  "allowed s ev = (target s ev \<noteq> None)"

definition on_exit :: "call_state \<Rightarrow> phone \<Rightarrow> phone" where
  "on_exit s ph =
     (case s of Idle \<Rightarrow> on_exit_idle ph | Dialing \<Rightarrow> on_exit_dialing ph | Answering \<Rightarrow> ph)"

text \<open>
  \<^verbatim>\<open>on_enter_answering\<close> takes the keyword \<^verbatim>\<open>number\<close>, which only the
  \<^verbatim>\<open>dial\<close> event carries; no transition of the table reaches the last equation.
\<close>

fun on_enter :: "call_state \<Rightarrow> event \<Rightarrow> phone \<Rightarrow> outcome" where
  "on_enter Idle ev ph = (None, on_enter_idle ph)"
| "on_enter Dialing ev ph = (None, on_enter_dialing ph)"
| "on_enter Answering (Dial number) ph = on_enter_answering number ph"
| "on_enter Answering ev ph = (Some TypeError, ph)"

text \<open>
  Invoking an event (\<^verbatim>\<open>self.pickup()\<close>, \<^verbatim>\<open>self.dial(number=...)\<close>,
  \<^verbatim>\<open>self.answer()\<close>, \<^verbatim>\<open>self.hang_up()\<close>).
\<close>

definition send :: "event \<Rightarrow> phone \<Rightarrow> outcome" where
  "send ev ph =
     (let ph0 = ph\<lparr>calls := calls ph @ [Fired ev]\<rparr> in
      case target (current_state ph0) ev of
        None \<Rightarrow> (Some TransitionNotAllowed, ph0)
      | Some t \<Rightarrow> on_enter t ev ((on_exit (current_state ph0) ph0)\<lparr>current_state := t\<rparr>))"

definition Phone_init :: "(string \<times> kind) list \<Rightarrow> phone" where
  "Phone_init files =
     \<lparr>current_state = Idle,
      audio_player = \<lparr>current_process = None, current_recording_process = None\<rparr>,
      audio_recorder = \<lparr>current_process = None, current_recording_process = None\<rparr>,
      earpiece_queue = [], fs = files, procs = [], calls = []\<rparr>"

subsection \<open>The earpiece loop\<close>

definition EARPIECE_PIN :: nat where
  "EARPIECE_PIN = 16"

text \<open>The edge callback registered by \<^verbatim>\<open>add_event_detect\<close> puts the channel in the queue.\<close>

definition gpio_edge :: "phone \<Rightarrow> phone" where
  "gpio_edge ph = ph\<lparr>earpiece_queue := earpiece_queue ph @ [EARPIECE_PIN]\<rparr>"

text \<open>
  One iteration of \<^verbatim>\<open>_get_earpiece\<close>; \<open>level\<close> is what \<^verbatim>\<open>GPIO.input\<close> returns
  if the iteration reads the pin.
\<close>

definition get_earpiece_iter :: "bool \<Rightarrow> phone \<Rightarrow> outcome" where
  "get_earpiece_iter level ph =
     (case earpiece_queue ph of
        [] \<Rightarrow> (None, ph)
      | x # queue \<Rightarrow>
          (let ph1 = ph\<lparr>earpiece_queue := queue\<rparr>; earpiece_home = level in
           if \<not> earpiece_home then
             (if \<not> current_state ph1 = Idle then (None, ph1) else send Pickup ph1)
           else send Hang_up ph1))"

subsection \<open>The dial loop\<close>

text \<open>The local variables of \<^verbatim>\<open>_get_dial\<close> (\<^verbatim>\<open>last\<close> is \<open>last_level\<close> here).\<close>

record decoder =
  num :: nat
  prnt :: bool
  last_level :: bool
  dialed_numbers :: "nat list"
  last_dial_time :: rat

text \<open>
  What one iteration reads: the pulse pin, the clock at line 170 (read only when a digit
  is finalized) and the clock at line 173.
\<close>

record tick =
  pulse :: bool
  dial_time :: rat
  current_time :: rat

text \<open>Lines 161 to 170.\<close>

definition finalize :: "tick \<Rightarrow> decoder \<Rightarrow> phone \<Rightarrow> decoder \<times> phone" where
  "finalize tk d ph =
     (if \<not> pulse tk \<and> pulse tk = last_level d \<and> prnt d then
        (d\<lparr>num := 0, prnt := False, last_level := False,
           dialed_numbers := dialed_numbers d @ [if num d = 10 then 0 else num d],
           last_dial_time := dial_time tk\<rparr>,
         stop Player ph)
      else (d, ph))"

text \<open>
  Lines 173 to 177. An exception of \<^verbatim>\<open>self.dial\<close> leaves the function, so the
  result is the exception or the locals for the next iteration.
\<close>

definition flush :: "tick \<Rightarrow> decoder \<Rightarrow> phone \<Rightarrow> (error + decoder) \<times> phone" where
  "flush tk d ph =
     (if current_time tk - last_dial_time d > 3 / 2 \<and> dialed_numbers d \<noteq> [] then
        (case send (Dial (concat (map str (dialed_numbers d)))) ph of
           (Some err, ph') \<Rightarrow> (Inl err, ph')
         | (None, ph') \<Rightarrow>
             (Inr (d\<lparr>dialed_numbers := [], last_dial_time := current_time tk\<rparr>), ph'))
      else (Inr d, ph))"

text \<open>Lines 148 to 177: the iteration after the check of the current state.\<close>

definition get_dial_body :: "tick \<Rightarrow> decoder \<Rightarrow> phone \<Rightarrow> (error + decoder) \<times> phone" where
  "get_dial_body tk d ph =
     (if pulse tk \<and> pulse tk \<noteq> last_level d then
        (Inr (d\<lparr>last_level := True, prnt := True, num := num d + 1\<rparr>), ph)
      else if \<not> pulse tk \<and> pulse tk \<noteq> last_level d then
        (Inr (d\<lparr>last_level := False\<rparr>), ph)
      else (case finalize tk d ph of (d', ph') \<Rightarrow> flush tk d' ph'))"

definition get_dial_iter :: "tick \<Rightarrow> decoder \<Rightarrow> phone \<Rightarrow> (error + decoder) \<times> phone" where
  "get_dial_iter tk d ph =
     (if current_state ph \<noteq> Dialing then (Inr d, ph) else get_dial_body tk d ph)"

definition get_dial_init :: "rat \<Rightarrow> decoder" where
  "get_dial_init now =
     \<lparr>num = 0, prnt = False, last_level = False, dialed_numbers = [], last_dial_time = now\<rparr>"

subsection \<open>Both loops on one phone\<close>

text \<open>
  A schedule lists, in the order in which they run, the edge callbacks and the
  iterations of the two loops that start while the shutdown event is not set. An
  iteration runs as a whole; an exception ends its thread, and the other goes on.
\<close>

record system =
  machine :: phone
  dial_locals :: decoder
  dial_thread :: "error option"
  earpiece_thread :: "error option"

datatype sched = Gpio_edge | Earpiece_iter bool | Dial_iter tick

fun system_step :: "system \<Rightarrow> sched \<Rightarrow> system" where
  "system_step s Gpio_edge = s\<lparr>machine := gpio_edge (machine s)\<rparr>"
| "system_step s (Earpiece_iter level) =
     (case earpiece_thread s of
        Some err \<Rightarrow> s
      | None \<Rightarrow>
          (case get_earpiece_iter level (machine s) of
             (r, ph) \<Rightarrow> s\<lparr>machine := ph, earpiece_thread := r\<rparr>))"
| "system_step s (Dial_iter tk) =
     (case dial_thread s of
        Some err \<Rightarrow> s
      | None \<Rightarrow>
          (case get_dial_iter tk (dial_locals s) (machine s) of
             (Inl err, ph) \<Rightarrow> s\<lparr>machine := ph, dial_thread := Some err\<rparr>
           | (Inr d, ph) \<Rightarrow> s\<lparr>machine := ph, dial_locals := d\<rparr>))"

definition system_run :: "system \<Rightarrow> sched list \<Rightarrow> system" where
  "system_run = foldl system_step"

text \<open>Whether a scheduled step is an iteration of the dial loop that gets past line 147.\<close>

definition decoding :: "system \<Rightarrow> sched \<Rightarrow> bool" where
  "decoding s sc =
     (case sc of Dial_iter tk \<Rightarrow> current_state (machine s) = Dialing | _ \<Rightarrow> False)"

definition start :: "(string \<times> kind) list \<Rightarrow> rat \<Rightarrow> system" where
  "start files now =
     \<lparr>machine = Phone_init files, dial_locals = get_dial_init now,
      dial_thread = None, earpiece_thread = None\<rparr>"

text \<open>The numbers passed to \<^verbatim>\<open>dial\<close> so far, oldest first.\<close>

fun dialed :: "call list \<Rightarrow> string list" where
  "dialed [] = []"
| "dialed (Fired (Dial number) # cs) = number # dialed cs"
| "dialed (c # cs) = dialed cs"

subsection \<open>Inputs used in the examples\<close>

definition dialed_number :: "string \<Rightarrow> bool" where
  "dialed_number number = (number \<noteq> [] \<and> list_all (\<lambda>c. c \<in> set ''0123456789'') number)"

definition sounds :: "(string \<times> kind) list" where
  "sounds = [(''dial.mp3'', File), (''beep.mp3'', File), (''beep-long.mp3'', File)]"

definition high_tick :: "rat \<Rightarrow> tick" where
  "high_tick t = \<lparr>pulse = True, dial_time = t, current_time = t\<rparr>"

definition low_tick :: "rat \<Rightarrow> tick" where
  "low_tick t = \<lparr>pulse = False, dial_time = t, current_time = t\<rparr>"

text \<open>
  \<open>n\<close> pulses, ten a second: each is one iteration that reads the pin high and, a
  twentieth of a second later, one that reads it low.
\<close>

definition pulse_train :: "nat \<Rightarrow> sched list" where
  "pulse_train n =
     concat (map (\<lambda>i. [Dial_iter (high_tick (of_nat i / 10)),
                        Dial_iter (low_tick (of_nat i / 10 + 1 / 20))]) [0..<n])"

text \<open>The handset is lifted: the edge callback, then the earpiece loop fires \<^verbatim>\<open>pickup\<close>.\<close>

definition lift_handset :: "sched list" where
  "lift_handset = [Gpio_edge, Earpiece_iter False]"

definition replace_handset :: "sched list" where
  "replace_handset = [Gpio_edge, Earpiece_iter True]"

definition off_hook :: phone where
  "off_hook = snd (send Pickup (Phone_init sounds))"

definition eleven_pulses :: system where
  "eleven_pulses = system_run (start sounds 0) (lift_handset @ pulse_train 11)"

definition one_digit_dialed :: system where
  "one_digit_dialed =
     system_run (start sounds 0) (lift_handset @ pulse_train 1 @ [Dial_iter (low_tick (1 / 10))])"

definition hung_up_mid_dial :: system where
  "hung_up_mid_dial = system_run one_digit_dialed replace_handset"

definition second_call :: system where
  "second_call =
     system_run (start sounds 0)
       (lift_handset @ pulse_train 2 @ [Dial_iter (low_tick (1 / 5))]
        @ replace_handset @ lift_handset)"

definition ten_counted :: decoder where
  "ten_counted =
     \<lparr>num = 10, prnt = True, last_level = False, dialed_numbers = [], last_dial_time = 0\<rparr>"

definition guestbook :: phone where
  "guestbook = Phone_init [(''7'', Dir), (''7/1.mp3'', File), (''7/2.mp3'', File)]"

section \<open>Properties\<close>

subsection \<open>What each method does to the log, the state and the handles\<close>

lemma dialed_append: "dialed (xs @ ys) = dialed xs @ dialed ys"
  by (induction xs rule: dialed.induct) simp_all

lemma calls_stop: "calls (stop r ph) = calls ph @ [Stop r]"
  by (cases r) (simp_all add: stop_def set_audio_def audio_def Let_def split: option.splits)

lemma current_state_stop: "current_state (stop r ph) = current_state ph"
  by (cases r) (simp_all add: stop_def set_audio_def audio_def Let_def split: option.splits)

lemma calls_execute: "calls (execute r cmd ph) = calls ph"
  by (cases r) (simp_all add: execute_def set_audio_def Popen_def)

lemma procs_execute:
  "procs (execute r cmd ph) = procs ph @ [\<lparr>command = cmd, running = True\<rparr>]"
  by (cases r) (simp_all add: execute_def set_audio_def Popen_def)

lemma fs_execute: "fs (execute r cmd ph) = fs ph"
  by (cases r) (simp_all add: execute_def set_audio_def Popen_def)

lemma dialed_play: "dialed (calls (snd (play file ph))) = dialed (calls ph)"
  by (simp add: play_def Let_def calls_execute calls_stop dialed_append)

lemma dialed_wait: "dialed (calls (snd (wait r ph))) = dialed (calls ph)"
  by (simp add: wait_def Let_def dialed_append split: option.splits)

lemma dialed_recorder_record:
  "dialed (calls (snd (recorder_record number ph))) = dialed (calls ph)"
  by (simp add: recorder_record_def then_run_def mkdir_def calls_execute dialed_append
      split: option.splits kind.splits)

lemma dialed_on_enter_answering:
  "dialed (calls (snd (on_enter_answering number ph))) = dialed (calls ph)"
proof (cases "play ''beep-long.mp3'' ph")
  case (Pair b ph1)
  then have ph1: "dialed (calls ph1) = dialed (calls ph)"
    using dialed_play [of "''beep-long.mp3''" ph] by simp
  show ?thesis
  proof (cases b)
    case False
    with Pair ph1 show ?thesis
      by (simp add: on_enter_answering_def)
  next
    case True
    show ?thesis
    proof (cases "wait Player ph1")
      case (Pair r ph2)
      then have "dialed (calls ph2) = dialed (calls ph1)"
        using dialed_wait [of Player ph1] by simp
      with Pair \<open>play ''beep-long.mp3'' ph = (b, ph1)\<close> True ph1 show ?thesis
        by (cases r) (simp_all add: on_enter_answering_def then_run_def dialed_recorder_record)
    qed
  qed
qed

lemma dialed_on_exit: "dialed (calls (on_exit s ph)) = dialed (calls ph)"
  by (cases s)
    (simp_all add: on_exit_def on_exit_idle_def on_exit_dialing_def calls_stop dialed_append)

lemma dialed_on_enter: "dialed (calls (snd (on_enter t ev ph))) = dialed (calls ph)"
  by (cases "(t, ev, ph)" rule: on_enter.cases)
    (simp_all add: on_enter_idle_def on_enter_dialing_def player_dial_def calls_stop
      dialed_append dialed_play dialed_on_enter_answering)

lemma dialed_send: "dialed (calls (snd (send ev ph))) = dialed (calls ph @ [Fired ev])"
  by (simp add: send_def Let_def dialed_on_enter dialed_on_exit split: option.splits)

lemma dialed_finalize: "dialed (calls (snd (finalize tk d ph))) = dialed (calls ph)"
  by (simp add: finalize_def calls_stop dialed_append)

lemma dialed_flush:
  "dialed (calls (snd (flush tk d ph))) = dialed (calls ph) @
     (if current_time tk - last_dial_time d > 3 / 2 \<and> dialed_numbers d \<noteq> []
      then [concat (map str (dialed_numbers d))] else [])"
proof (cases "current_time tk - last_dial_time d > 3 / 2 \<and> dialed_numbers d \<noteq> []")
  case False
  then show ?thesis
    by (auto simp add: flush_def)
next
  case True
  let ?n = "concat (map str (dialed_numbers d))"
  obtain r ph' where s: "send (Dial ?n) ph = (r, ph')"
    by (cases "send (Dial ?n) ph")
  then have "dialed (calls ph') = dialed (calls ph) @ [?n]"
    using dialed_send [of "Dial ?n" ph] by (simp add: dialed_append)
  with True s show ?thesis
    by (cases r) (simp_all add: flush_def)
qed

text \<open>The log only grows.\<close>

lemma prefix_calls_play: "prefix (calls ph) (calls (snd (play file ph)))"
  by (simp add: play_def Let_def calls_execute calls_stop)

lemma prefix_calls_wait: "prefix (calls ph) (calls (snd (wait r ph)))"
  by (simp add: wait_def Let_def split: option.splits)

lemma prefix_calls_recorder_record:
  "prefix (calls ph) (calls (snd (recorder_record number ph)))"
  by (simp add: recorder_record_def then_run_def mkdir_def calls_execute
      split: option.splits kind.splits)

lemma prefix_calls_on_enter_answering:
  "prefix (calls ph) (calls (snd (on_enter_answering number ph)))"
proof (cases "play ''beep-long.mp3'' ph")
  case (Pair b ph1)
  then have ph1: "prefix (calls ph) (calls ph1)"
    using prefix_calls_play [of ph "''beep-long.mp3''"] by simp
  show ?thesis
  proof (cases b)
    case False
    with Pair ph1 show ?thesis
      by (simp add: on_enter_answering_def)
  next
    case True
    obtain r ph2 where w: "wait Player ph1 = (r, ph2)"
      by (cases "wait Player ph1")
    then have "prefix (calls ph1) (calls ph2)"
      using prefix_calls_wait [of ph1 Player] by simp
    with ph1 have ph2: "prefix (calls ph) (calls ph2)"
      by (rule prefix_order.trans)
    show ?thesis
    proof (cases r)
      case None
      have "prefix (calls ph2) (calls (snd (recorder_record number ph2)))"
        by (rule prefix_calls_recorder_record)
      with ph2 have "prefix (calls ph) (calls (snd (recorder_record number ph2)))"
        by (rule prefix_order.trans)
      with Pair True w None show ?thesis
        by (simp add: on_enter_answering_def then_run_def)
    next
      case (Some err)
      with Pair True w ph2 show ?thesis
        by (simp add: on_enter_answering_def then_run_def)
    qed
  qed
qed

lemma prefix_calls_on_exit: "prefix (calls ph) (calls (on_exit s ph))"
  by (cases s) (simp_all add: on_exit_def on_exit_idle_def on_exit_dialing_def calls_stop)

lemma prefix_calls_on_enter: "prefix (calls ph) (calls (snd (on_enter t ev ph)))"
  by (cases "(t, ev, ph)" rule: on_enter.cases)
    (simp_all add: on_enter_idle_def on_enter_dialing_def player_dial_def calls_stop
      prefix_calls_play prefix_calls_on_enter_answering)

lemma prefix_calls_send: "prefix (calls ph) (calls (snd (send ev ph)))"
proof (cases "target (current_state ph) ev")
  case None
  then show ?thesis
    by (simp add: send_def Let_def)
next
  case (Some t)
  let ?ph0 = "ph\<lparr>calls := calls ph @ [Fired ev]\<rparr>"
  let ?ph1 = "(on_exit (current_state ph) ?ph0)\<lparr>current_state := t\<rparr>"
  have "prefix (calls ph) (calls ?ph0)"
    by simp
  also have "prefix (calls ?ph0) (calls ?ph1)"
    using prefix_calls_on_exit [of ?ph0 "current_state ph"] by simp
  also have "prefix (calls ?ph1) (calls (snd (on_enter t ev ?ph1)))"
    by (rule prefix_calls_on_enter)
  finally show ?thesis
    using Some by (simp add: send_def Let_def)
qed

lemma prefix_calls_flush: "prefix (calls ph) (calls (snd (flush tk d ph)))"
proof (cases "current_time tk - last_dial_time d > 3 / 2 \<and> dialed_numbers d \<noteq> []")
  case False
  then show ?thesis
    by (auto simp add: flush_def)
next
  case True
  let ?n = "concat (map str (dialed_numbers d))"
  obtain r ph' where s: "send (Dial ?n) ph = (r, ph')"
    by (cases "send (Dial ?n) ph")
  then have "prefix (calls ph) (calls ph')"
    using prefix_calls_send [of ph "Dial ?n"] by simp
  with True s show ?thesis
    by (cases r) (simp_all add: flush_def)
qed

subsection \<open>Events\<close>

lemma send_Hang_up:
  "send Hang_up ph =
     (None, on_enter_idle
        ((on_exit (current_state ph) (ph\<lparr>calls := calls ph @ [Fired Hang_up]\<rparr>))
           \<lparr>current_state := Idle\<rparr>))"
  by (cases "current_state ph") (simp_all add: send_def Let_def)

lemma current_state_on_enter_idle: "current_state (on_enter_idle ph) = current_state ph"
  by (simp add: on_enter_idle_def current_state_stop)

text \<open>
  After \<^verbatim>\<open>play\<close> has started a process, \<^verbatim>\<open>current_process\<close> is \<open>None\<close>:
  \<^verbatim>\<open>stop\<close> clears it and \<^verbatim>\<open>_execute\<close> writes the other attribute. So the
  \<^verbatim>\<open>wait\<close> in \<^verbatim>\<open>on_enter_answering\<close> raises whatever the phone was before.
\<close>

lemma current_process_after_play:
  "fst (play file ph) \<Longrightarrow> current_process (audio_player (snd (play file ph))) = None"
  by (simp add: play_def Let_def execute_def stop_def set_audio_def audio_def Popen_def
      split: if_splits option.splits)

lemma on_enter_answering_raises: "fst (on_enter_answering number ph) = Some AttributeError"
proof (cases "play ''beep-long.mp3'' ph")
  case (Pair b ph1)
  show ?thesis
  proof (cases b)
    case False
    with Pair show ?thesis
      by (simp add: on_enter_answering_def)
  next
    case True
    with Pair have "current_process (audio_player ph1) = None"
      using current_process_after_play [of "''beep-long.mp3''" ph] by simp
    then have "fst (wait Player ph1) = Some AttributeError"
      by (simp add: wait_def audio_def Let_def)
    then obtain ph2 where "wait Player ph1 = (Some AttributeError, ph2)"
      by (cases "wait Player ph1") simp
    with Pair True show ?thesis
      by (simp add: on_enter_answering_def then_run_def)
  qed
qed

subsection \<open>The recorder's file name\<close>

lemma get_unique_filename_from_first_free:
  "\<exists>k\<ge>index. get_unique_filename_from files folder_path index = mp3_path folder_path k
     \<and> \<not> exists_path files (mp3_path folder_path k)
     \<and> (\<forall>j. index \<le> j \<and> j < k \<longrightarrow> exists_path files (mp3_path folder_path j))"
proof (induction files folder_path index rule: get_unique_filename_from.induct)
  case (1 files folder_path index)
  show ?case
  proof (cases "exists_path files (mp3_path folder_path index)")
    case False
    then have "get_unique_filename_from files folder_path index = mp3_path folder_path index"
      by (subst get_unique_filename_from.simps) simp
    with False show ?thesis
      by (intro exI [of _ index]) auto
  next
    case True
    with 1 obtain k where k: "index + 1 \<le> k"
      "get_unique_filename_from files folder_path (index + 1) = mp3_path folder_path k"
      "\<not> exists_path files (mp3_path folder_path k)"
      "\<forall>j. index + 1 \<le> j \<and> j < k \<longrightarrow> exists_path files (mp3_path folder_path j)"
      by auto
    from True k(2)
    have "get_unique_filename_from files folder_path index = mp3_path folder_path k"
      by (subst get_unique_filename_from.simps) simp
    moreover have "exists_path files (mp3_path folder_path j)" if "index \<le> j" "j < k" for j
    proof (cases "j = index")
      case True
      with \<open>exists_path files (mp3_path folder_path index)\<close> show ?thesis
        by simp
    next
      case False
      with that k(4) show ?thesis
        by simp
    qed
    ultimately show ?thesis
      using k(1,3) by (intro exI [of _ k]) simp
  qed
qed

lemma mp3_path_longer: "mp3_path folder_path index \<noteq> folder_path"
  by (simp add: mp3_path_def)

lemma exists_path_append:
  "exists_path (files @ [(p, k)]) q = (exists_path files q \<or> q = p)"
  by (auto simp: exists_path_def)

section \<open>The claims\<close>

text \<open>
  Claim C1, as the code has it. An iteration that runs in Dialing, reads the pin low
  after a low reading and has a pulse registered finalizes a digit: it appends 0 for a
  count of 10 and the count itself otherwise, clears the count and the flags, records the
  clock, asks the player to stop, and goes on to the gap check. For a count of at most 10
  what is appended is the count mod 10; a larger count is appended as it is.
\<close>

theorem finalized_digit:
  assumes "current_state ph = Dialing" and "\<not> pulse tk" and "\<not> last_level d" and "prnt d"
  shows "get_dial_iter tk d ph =
     flush tk
       (d\<lparr>num := 0, prnt := False, last_level := False,
          dialed_numbers :=
            dialed_numbers d @ [if num d \<le> 10 then num d mod 10 else num d],
          last_dial_time := dial_time tk\<rparr>)
       (stop Player ph)"
proof -
  have "(if num d = 10 then 0 else num d) = (if num d \<le> 10 then num d mod 10 else num d)"
    by simp
  with assms show ?thesis
    by (simp add: get_dial_iter_def get_dial_body_def finalize_def)
qed

text \<open>Ten pulses counted, the pin low for a second reading: the digit is 0.\<close>

theorem finalized_digit_witness:
  "current_state off_hook = Dialing \<and> \<not> pulse (low_tick (21 / 20))
   \<and> \<not> last_level ten_counted \<and> prnt ten_counted
   \<and> get_dial_iter (low_tick (21 / 20)) ten_counted off_hook =
       flush (low_tick (21 / 20))
         (ten_counted\<lparr>num := 0, prnt := False, last_level := False,
            dialed_numbers :=
              dialed_numbers ten_counted
              @ [if num ten_counted \<le> 10 then num ten_counted mod 10 else num ten_counted],
            last_dial_time := dial_time (low_tick (21 / 20))\<rparr>)
         (stop Player off_hook)
   \<and> fst (get_dial_iter (low_tick (21 / 20)) ten_counted off_hook) =
       Inr \<lparr>num = 0, prnt = False, last_level = False, dialed_numbers = [0],
            last_dial_time = 21 / 20\<rparr>"
proof -
  have h1: "current_state off_hook = Dialing"
    by code_simp
  have h2: "\<not> pulse (low_tick (21 / 20))"
    by (simp add: low_tick_def)
  have h3: "\<not> last_level ten_counted" and h4: "prnt ten_counted"
    by (simp_all add: ten_counted_def)
  have "fst (get_dial_iter (low_tick (21 / 20)) ten_counted off_hook) =
       Inr \<lparr>num = 0, prnt = False, last_level = False, dialed_numbers = [0],
            last_dial_time = 21 / 20\<rparr>"
    by code_simp
  with h1 h2 h3 h4 finalized_digit [OF h1 h2 h3 h4] show ?thesis
    by simp
qed

text \<open>
  Claim C1 as stated fails for a count above 10. Eleven pulses with no second low
  reading between them are counted as 11, and the low reading that follows appends 11,
  not 11 mod 10.
\<close>

theorem eleven_pulses_counterexample:
  "current_state (machine eleven_pulses) = Dialing
   \<and> num (dial_locals eleven_pulses) = 11
   \<and> dialed_numbers (dial_locals eleven_pulses) = []
   \<and> dialed_numbers
       (dial_locals (system_step eleven_pulses (Dial_iter (low_tick (23 / 20))))) = [11]
   \<and> (11 :: nat) mod 10 \<noteq> 11"
  by code_simp

text \<open>
  Claim C2, as the code has it. One iteration passes at most one number to
  \<^verbatim>\<open>dial\<close>, and it does so exactly when it runs in Dialing, reads the pin at the
  level of the previous reading, more than 1.5 seconds lie between the clock and
  \<^verbatim>\<open>last_dial_time\<close>, and the accumulator is not empty (both taken after the
  digit this iteration may have finalized). The number is the accumulator's digits in
  order, joined.
\<close>

theorem flush_exactly_when_gap_and_pending:
  "dialed (calls (snd (get_dial_iter tk d ph))) = dialed (calls ph) @
     (if current_state ph = Dialing \<and> pulse tk = last_level d
         \<and> current_time tk - last_dial_time (fst (finalize tk d ph)) > 3 / 2
         \<and> dialed_numbers (fst (finalize tk d ph)) \<noteq> []
      then [concat (map str (dialed_numbers (fst (finalize tk d ph))))] else [])"
proof (cases "current_state ph = Dialing \<and> pulse tk = last_level d")
  case False
  then show ?thesis
    by (auto simp add: get_dial_iter_def get_dial_body_def)
next
  case True
  obtain d' ph' where f: "finalize tk d ph = (d', ph')"
    by (cases "finalize tk d ph")
  then have "dialed (calls ph') = dialed (calls ph)"
    using dialed_finalize [of tk d ph] by simp
  with True f show ?thesis
    using dialed_flush [of tk d' ph'] by (simp add: get_dial_iter_def get_dial_body_def)
qed

text \<open>
  Claim C2 as stated fails for an iteration that does not run in Dialing. The handset
  is replaced a tenth of a second after the digit 1 was finalized; at time 2 the dial
  loop is alive, a digit is pending and the gap is over, and the iteration passes nothing
  to \<^verbatim>\<open>dial\<close>.
\<close>

theorem no_flush_outside_dialing_counterexample:
  "dial_thread hung_up_mid_dial = None
   \<and> dialed_numbers (dial_locals hung_up_mid_dial) = [1]
   \<and> 3 / 2 < current_time (low_tick 2) - last_dial_time (dial_locals hung_up_mid_dial)
   \<and> current_state (machine hung_up_mid_dial) = Idle
   \<and> dialed (calls (machine (system_step hung_up_mid_dial (Dial_iter (low_tick 2))))) = []"
  by code_simp

text \<open>
  Claim C3, as the code has it. The transition table is: \<^verbatim>\<open>pickup\<close> from Idle,
  \<^verbatim>\<open>dial\<close> from Dialing, \<^verbatim>\<open>answer\<close> from Answering, \<^verbatim>\<open>hang_up\<close>
  from every state. An event invoked outside it leaves the current state, the two audio
  objects, the processes and the files as they are (only the invocation is logged), and
  raises \<^verbatim>\<open>TransitionNotAllowed\<close> to its caller. Nothing catches it: when line
  175 invokes \<^verbatim>\<open>dial\<close> on a machine that is not in Dialing, the exception leaves
  the dial loop, with no state change and no process started or stopped.
\<close>

theorem invalid_event_raises:
  "(allowed s ev =
      (s = Idle \<and> ev = Pickup \<or> s = Dialing \<and> (\<exists>number. ev = Dial number)
       \<or> s = Answering \<and> ev = Answer \<or> ev = Hang_up))
   \<and> (\<not> allowed (current_state ph) ev \<longrightarrow>
        fst (send ev ph) = Some TransitionNotAllowed
      \<and> current_state (snd (send ev ph)) = current_state ph
      \<and> audio_player (snd (send ev ph)) = audio_player ph
      \<and> audio_recorder (snd (send ev ph)) = audio_recorder ph
      \<and> procs (snd (send ev ph)) = procs ph
      \<and> fs (snd (send ev ph)) = fs ph
      \<and> calls (snd (send ev ph)) = calls ph @ [Fired ev])
   \<and> (current_state ph \<noteq> Dialing \<and> 3 / 2 < current_time tk - last_dial_time d
        \<and> dialed_numbers d \<noteq> [] \<longrightarrow>
        fst (flush tk d ph) = Inl TransitionNotAllowed
      \<and> current_state (snd (flush tk d ph)) = current_state ph
      \<and> procs (snd (flush tk d ph)) = procs ph)"
proof (intro conjI impI)
  show "allowed s ev =
      (s = Idle \<and> ev = Pickup \<or> s = Dialing \<and> (\<exists>number. ev = Dial number)
       \<or> s = Answering \<and> ev = Answer \<or> ev = Hang_up)"
    by (cases s; cases ev) (simp_all add: allowed_def)
next
  assume out: "\<not> allowed (current_state ph) ev"
  then have r: "send ev ph = (Some TransitionNotAllowed, ph\<lparr>calls := calls ph @ [Fired ev]\<rparr>)"
    by (simp add: send_def allowed_def Let_def)
  show "fst (send ev ph) = Some TransitionNotAllowed"
    and "current_state (snd (send ev ph)) = current_state ph"
    and "audio_player (snd (send ev ph)) = audio_player ph"
    and "audio_recorder (snd (send ev ph)) = audio_recorder ph"
    and "procs (snd (send ev ph)) = procs ph"
    and "fs (snd (send ev ph)) = fs ph"
    and "calls (snd (send ev ph)) = calls ph @ [Fired ev]"
    by (simp_all add: r)
next
  assume h: "current_state ph \<noteq> Dialing \<and> 3 / 2 < current_time tk - last_dial_time d
        \<and> dialed_numbers d \<noteq> []"
  let ?ev = "Dial (concat (map str (dialed_numbers d)))"
  from h have "target (current_state ph) ?ev = None"
    by (cases "current_state ph") simp_all
  then have "send ?ev ph = (Some TransitionNotAllowed, ph\<lparr>calls := calls ph @ [Fired ?ev]\<rparr>)"
    by (simp add: send_def Let_def)
  with h show "fst (flush tk d ph) = Inl TransitionNotAllowed"
    and "current_state (snd (flush tk d ph)) = current_state ph"
    and "procs (snd (flush tk d ph)) = procs ph"
    by (simp_all add: flush_def)
qed

text \<open>
  All six pairs outside the table, and the gap check of the dial loop on a phone that
  was hung up with the digit 1 pending.
\<close>

theorem invalid_event_raises_witness:
  "\<not> allowed (current_state (Phone_init sounds)) (Dial ''5'')
   \<and> fst (send (Dial ''5'') (Phone_init sounds)) = Some TransitionNotAllowed
   \<and> current_state (snd (send (Dial ''5'') (Phone_init sounds))) = Idle
   \<and> procs (snd (send (Dial ''5'') (Phone_init sounds))) = []
   \<and> \<not> allowed (current_state (Phone_init sounds)) Answer
   \<and> fst (send Answer (Phone_init sounds)) = Some TransitionNotAllowed
   \<and> current_state (snd (send Answer (Phone_init sounds))) = Idle
   \<and> \<not> allowed (current_state off_hook) Pickup
   \<and> fst (send Pickup off_hook) = Some TransitionNotAllowed
   \<and> current_state (snd (send Pickup off_hook)) = Dialing
   \<and> procs (snd (send Pickup off_hook)) = procs off_hook
   \<and> \<not> allowed (current_state off_hook) Answer
   \<and> fst (send Answer off_hook) = Some TransitionNotAllowed
   \<and> current_state (snd (send Answer off_hook)) = Dialing
   \<and> \<not> allowed (current_state (off_hook\<lparr>current_state := Answering\<rparr>)) Pickup
   \<and> fst (send Pickup (off_hook\<lparr>current_state := Answering\<rparr>)) = Some TransitionNotAllowed
   \<and> current_state (snd (send Pickup (off_hook\<lparr>current_state := Answering\<rparr>))) = Answering
   \<and> \<not> allowed (current_state (off_hook\<lparr>current_state := Answering\<rparr>)) (Dial ''5'')
   \<and> fst (send (Dial ''5'') (off_hook\<lparr>current_state := Answering\<rparr>))
       = Some TransitionNotAllowed
   \<and> current_state (snd (send (Dial ''5'') (off_hook\<lparr>current_state := Answering\<rparr>)))
       = Answering
   \<and> current_state (machine hung_up_mid_dial) \<noteq> Dialing
   \<and> 3 / 2 < current_time (low_tick 2) - last_dial_time (dial_locals hung_up_mid_dial)
   \<and> dialed_numbers (dial_locals hung_up_mid_dial) \<noteq> []
   \<and> fst (flush (low_tick 2) (dial_locals hung_up_mid_dial) (machine hung_up_mid_dial))
       = Inl TransitionNotAllowed"
proof -
  let ?answering = "off_hook\<lparr>current_state := Answering\<rparr>"
  have idle: "current_state (Phone_init sounds) = Idle"
    and dialing: "current_state off_hook = Dialing"
    and answering: "current_state ?answering = Answering"
    and none: "procs (Phone_init sounds) = []"
    by code_simp+
  have a1: "\<not> allowed (current_state (Phone_init sounds)) (Dial ''5'')"
    and a2: "\<not> allowed (current_state (Phone_init sounds)) Answer"
    and a3: "\<not> allowed (current_state off_hook) Pickup"
    and a4: "\<not> allowed (current_state off_hook) Answer"
    and a5: "\<not> allowed (current_state ?answering) Pickup"
    and a6: "\<not> allowed (current_state ?answering) (Dial ''5'')"
    by (simp_all add: idle dialing allowed_def)
  have f: "current_state (machine hung_up_mid_dial) \<noteq> Dialing
     \<and> 3 / 2 < current_time (low_tick 2) - last_dial_time (dial_locals hung_up_mid_dial)
     \<and> dialed_numbers (dial_locals hung_up_mid_dial) \<noteq> []"
    by code_simp
  note t = invalid_event_raises
  from t [where ph = "Phone_init sounds" and ev = "Dial ''5''"] a1
    t [where ph = "Phone_init sounds" and ev = Answer] a2
    t [where ph = off_hook and ev = Pickup] a3
    t [where ph = off_hook and ev = Answer] a4
    t [where ph = ?answering and ev = Pickup] a5
    t [where ph = ?answering and ev = "Dial ''5''"] a6
    t [where ph = "machine hung_up_mid_dial" and tk = "low_tick 2"
        and d = "dial_locals hung_up_mid_dial"] f
  show ?thesis
    by (simp add: idle dialing none)
qed

text \<open>
  Claim C3 as stated fails: the exception is not caught. Here the dial loop has read
  the state as Dialing with the digit 1 pending, the handset is replaced before the loop
  reaches line 175, and the rest of the iteration ends the loop with
  \<^verbatim>\<open>TransitionNotAllowed\<close>.
\<close>

theorem dial_after_hang_up_counterexample:
  "current_state (machine one_digit_dialed) = Dialing
   \<and> fst (send Hang_up (machine one_digit_dialed)) = None
   \<and> fst (get_dial_body (low_tick 2) (dial_locals one_digit_dialed)
            (snd (send Hang_up (machine one_digit_dialed)))) = Inl TransitionNotAllowed"
  by code_simp

text \<open>
  Claim C4 fails on the code. With the handset lifted and every sound file present,
  \<^verbatim>\<open>dial("0")\<close> starts the prompt and raises \<^verbatim>\<open>AttributeError\<close> at
  \<^verbatim>\<open>wait\<close>: nothing waits for the prompt, \<^verbatim>\<open>record\<close> is not called and no
  \<^verbatim>\<open>rec\<close> process exists afterwards.
\<close>

theorem dial_starts_no_recording:
  "fst (send (Dial ''0'') off_hook) = Some AttributeError
   \<and> procs (snd (send (Dial ''0'') off_hook)) =
       [\<lparr>command = [''play'', ''dial.mp3''], running = True\<rparr>,
        \<lparr>command = [''play'', ''beep-long.mp3''], running = True\<rparr>]
   \<and> calls (snd (send (Dial ''0'') off_hook)) =
       [Fired Pickup, Play ''dial.mp3'', Stop Player, Fired (Dial ''0''), Stop Player,
        Play ''beep-long.mp3'', Stop Player, Wait Player]"
  by code_simp

text \<open>
  Claim C5 fails on the code. The dial tone started by \<^verbatim>\<open>pickup\<close> is still
  running after \<^verbatim>\<open>hang_up\<close> has entered Idle and called both stops.
\<close>

theorem hang_up_leaves_dial_tone_running:
  "procs off_hook = [\<lparr>command = [''play'', ''dial.mp3''], running = True\<rparr>]
   \<and> fst (send Hang_up off_hook) = None
   \<and> current_state (snd (send Hang_up off_hook)) = Idle
   \<and> calls (snd (send Hang_up off_hook)) =
       [Fired Pickup, Play ''dial.mp3'', Stop Player, Fired Hang_up, Stop Player,
        Stop Recorder, Stop Player]
   \<and> procs (snd (send Hang_up off_hook)) =
       [\<lparr>command = [''play'', ''dial.mp3''], running = True\<rparr>]"
  by code_simp

text \<open>
  Claim C6. From every state \<^verbatim>\<open>hang_up\<close> is in the transition table, returns
  without an exception and leaves the machine in Idle; a second \<^verbatim>\<open>hang_up\<close> leaves
  it in the same state.
\<close>

theorem hang_up_returns_to_idle:
  "allowed (current_state ph) Hang_up
   \<and> fst (send Hang_up ph) = None
   \<and> current_state (snd (send Hang_up ph)) = Idle
   \<and> current_state (snd (send Hang_up (snd (send Hang_up ph))))
       = current_state (snd (send Hang_up ph))"
proof -
  have "allowed (current_state ph) Hang_up"
    by (cases "current_state ph") (simp_all add: allowed_def)
  moreover have "fst (send Hang_up ph') = None \<and> current_state (snd (send Hang_up ph')) = Idle"
    for ph'
    by (simp add: send_Hang_up current_state_on_enter_idle)
  ultimately show ?thesis
    by simp
qed

text \<open>
  Claim C7, as the code has it. The accumulator and the pulse count are local
  variables of the dial loop. The edge callback, every iteration of the earpiece loop
  (so every \<^verbatim>\<open>hang_up\<close> and \<^verbatim>\<open>pickup\<close>) and every iteration of the dial loop
  that does not run in Dialing leave them as they are.
\<close>

theorem decoder_kept_outside_dialing:
  assumes "\<not> decoding s sc"
  shows "dial_locals (system_step s sc) = dial_locals s"
proof (cases sc)
  case Gpio_edge
  then show ?thesis
    by simp
next
  case (Earpiece_iter level)
  then show ?thesis
    by (simp split: option.splits prod.splits)
next
  case (Dial_iter tk)
  with assms have "current_state (machine s) \<noteq> Dialing"
    by (simp add: decoding_def)
  with Dial_iter show ?thesis
    by (simp add: get_dial_iter_def split: option.splits)
qed

text \<open>The iteration of the earpiece loop that hangs up with the digit 1 pending.\<close>

theorem decoder_kept_outside_dialing_witness:
  "\<not> decoding (system_step one_digit_dialed Gpio_edge) (Earpiece_iter True)
   \<and> dial_locals (system_step (system_step one_digit_dialed Gpio_edge) (Earpiece_iter True))
       = dial_locals (system_step one_digit_dialed Gpio_edge)
   \<and> current_state
       (machine (system_step (system_step one_digit_dialed Gpio_edge) (Earpiece_iter True)))
       = Idle
   \<and> dialed_numbers (dial_locals (system_step one_digit_dialed Gpio_edge)) = [1]"
proof -
  have h: "\<not> decoding (system_step one_digit_dialed Gpio_edge) (Earpiece_iter True)"
    by (simp add: decoding_def)
  have "current_state
       (machine (system_step (system_step one_digit_dialed Gpio_edge) (Earpiece_iter True)))
       = Idle"
    by code_simp
  moreover have "dialed_numbers (dial_locals (system_step one_digit_dialed Gpio_edge)) = [1]"
    by code_simp
  ultimately show ?thesis
    using h decoder_kept_outside_dialing [OF h] by simp
qed

text \<open>
  Claim C7 as stated fails. The digit 2 is finalized, the handset is replaced and
  lifted again: the second call starts with 2 in the accumulator, and its first
  iteration, at time 5, passes the number 2 to \<^verbatim>\<open>dial\<close> with no pulse dialed.
\<close>

theorem digit_survives_hang_up_counterexample:
  "current_state (machine second_call) = Dialing
   \<and> dialed_numbers (dial_locals second_call) = [2]
   \<and> dialed (calls (machine second_call)) = []
   \<and> dialed (calls (machine (system_step second_call (Dial_iter (low_tick 5))))) = [''2'']"
  by code_simp

text \<open>
  Claim C8. For a number made of decimal digits whose name is not taken by a file,
  \<^verbatim>\<open>record\<close> returns with the directory present and one new process,
  \<^verbatim>\<open>rec -t mp3\<close> writing to \<open>k.mp3\<close> in that directory, where \<open>k \<ge> 1\<close>, no
  \<open>k.mp3\<close> was there, and every \<open>j.mp3\<close> with \<open>1 \<le> j < k\<close> was.
\<close>

theorem recording_takes_first_unused_index:
  assumes "dialed_number number" and "map_of (fs ph) number \<noteq> Some File"
  shows "\<exists>k\<ge>1.
      fst (recorder_record number ph) = None
    \<and> procs (snd (recorder_record number ph)) =
        procs ph @ [\<lparr>command = [''rec'', ''-t'', ''mp3'', mp3_path number k], running = True\<rparr>]
    \<and> \<not> exists_path (fs ph) (mp3_path number k)
    \<and> (\<forall>j. 1 \<le> j \<and> j < k \<longrightarrow> exists_path (fs ph) (mp3_path number j))
    \<and> map_of (fs (snd (recorder_record number ph))) number = Some Dir"
proof -
  let ?ph0 = "ph\<lparr>calls := calls ph @ [Record number]\<rparr>"
  obtain files where m: "mkdir number ?ph0 = (None, ?ph0\<lparr>fs := files\<rparr>)"
    and files: "files = fs ph \<or> files = fs ph @ [(number, Dir)]"
    and dir: "map_of files number = Some Dir"
  proof (cases "map_of (fs ph) number")
    case None
    then have "mkdir number ?ph0 = (None, ?ph0\<lparr>fs := fs ph @ [(number, Dir)]\<rparr>)"
      by (simp add: mkdir_def)
    moreover from None have "map_of (fs ph @ [(number, Dir)]) number = Some Dir"
      by (simp add: map_add_def)
    ultimately show ?thesis
      using that by blast
  next
    case (Some k)
    with assms(2) have "map_of (fs ph) number = Some Dir"
      by (cases k) simp_all
    moreover from this have "mkdir number ?ph0 = (None, ?ph0\<lparr>fs := fs ph\<rparr>)"
      by (simp add: mkdir_def)
    ultimately show ?thesis
      using that by blast
  qed
  have same: "exists_path files (mp3_path number j) = exists_path (fs ph) (mp3_path number j)"
    for j
    using files by (auto simp: exists_path_append mp3_path_longer)
  obtain k where k: "1 \<le> k" "get_unique_filename files number = mp3_path number k"
    "\<not> exists_path files (mp3_path number k)"
    "\<forall>j. 1 \<le> j \<and> j < k \<longrightarrow> exists_path files (mp3_path number j)"
    using get_unique_filename_from_first_free [of 1 files number]
    by (auto simp: get_unique_filename_def)
  have r: "recorder_record number ph =
      (None, execute Recorder [''rec'', ''-t'', ''mp3'', mp3_path number k] (?ph0\<lparr>fs := files\<rparr>))"
    using m k(2) by (simp add: recorder_record_def then_run_def)
  show ?thesis
  proof (intro exI [of _ k] conjI)
    show "1 \<le> k"
      by (rule k(1))
    show "fst (recorder_record number ph) = None"
      by (simp add: r)
    show "procs (snd (recorder_record number ph)) =
        procs ph @ [\<lparr>command = [''rec'', ''-t'', ''mp3'', mp3_path number k], running = True\<rparr>]"
      by (simp add: r procs_execute)
    show "\<not> exists_path (fs ph) (mp3_path number k)"
      using k(3) by (simp add: same)
    show "\<forall>j. 1 \<le> j \<and> j < k \<longrightarrow> exists_path (fs ph) (mp3_path number j)"
      using k(4) by (simp add: same)
    show "map_of (fs (snd (recorder_record number ph))) number = Some Dir"
      using dir by (simp add: r fs_execute)
  qed
qed

text \<open>With \<open>1.mp3\<close> and \<open>2.mp3\<close> in the directory \<open>7\<close>, the recording goes to \<open>7/3.mp3\<close>.\<close>

theorem recording_takes_first_unused_index_witness:
  "dialed_number ''7'' \<and> map_of (fs guestbook) ''7'' \<noteq> Some File
   \<and> fst (recorder_record ''7'' guestbook) = None
   \<and> procs (snd (recorder_record ''7'' guestbook)) =
        [\<lparr>command = [''rec'', ''-t'', ''mp3'', ''7/3.mp3''], running = True\<rparr>]
   \<and> map_of (fs (snd (recorder_record ''7'' guestbook))) ''7'' = Some Dir"
proof -
  have h1: "dialed_number ''7''"
    by (simp add: dialed_number_def)
  have h2: "map_of (fs guestbook) ''7'' \<noteq> Some File"
    by (simp add: guestbook_def Phone_init_def)
  from recording_takes_first_unused_index [OF h1 h2]
  obtain k where k: "1 \<le> k" "fst (recorder_record ''7'' guestbook) = None"
    "procs (snd (recorder_record ''7'' guestbook)) =
        procs guestbook
        @ [\<lparr>command = [''rec'', ''-t'', ''mp3'', mp3_path ''7'' k], running = True\<rparr>]"
    "\<not> exists_path (fs guestbook) (mp3_path ''7'' k)"
    "\<forall>j. 1 \<le> j \<and> j < k \<longrightarrow> exists_path (fs guestbook) (mp3_path ''7'' j)"
    "map_of (fs (snd (recorder_record ''7'' guestbook))) ''7'' = Some Dir"
    by blast
  have "exists_path (fs guestbook) (mp3_path ''7'' 1)"
    and "exists_path (fs guestbook) (mp3_path ''7'' 2)"
    and free: "\<not> exists_path (fs guestbook) (mp3_path ''7'' 3)"
    by code_simp+
  with k(4) have "k \<noteq> 1" and "k \<noteq> 2"
    by auto
  moreover have "\<not> 3 < k"
    using k(5) free by auto
  ultimately have "k = 3"
    using k(1) by arith
  moreover have "mp3_path ''7'' 3 = ''7/3.mp3''" and "procs guestbook = []"
    by code_simp+
  ultimately show ?thesis
    using h1 h2 k(2,3,6) by simp
qed

text \<open>
  Claim C10. An iteration of the dial loop that finalizes a digit calls
  \<^verbatim>\<open>audio_player.stop\<close> before anything else: the call is the next entry of the log.
\<close>

theorem finalization_stops_player:
  assumes "current_state ph = Dialing" and "\<not> pulse tk" and "\<not> last_level d" and "prnt d"
  shows "prefix (calls ph @ [Stop Player]) (calls (snd (get_dial_iter tk d ph)))"
proof -
  obtain d' where "get_dial_iter tk d ph = flush tk d' (stop Player ph)"
    using assms by (simp add: get_dial_iter_def get_dial_body_def finalize_def)
  then show ?thesis
    using prefix_calls_flush [of "stop Player ph" tk d'] by (simp add: calls_stop)
qed

text \<open>The first digit of a number, one pulse, finalized a tenth of a second after the pickup.\<close>

theorem finalization_stops_player_witness:
  "current_state off_hook = Dialing \<and> \<not> pulse (low_tick (1 / 10))
   \<and> \<not> last_level ((get_dial_init 0)\<lparr>num := 1, prnt := True\<rparr>)
   \<and> prnt ((get_dial_init 0)\<lparr>num := 1, prnt := True\<rparr>)
   \<and> prefix (calls off_hook @ [Stop Player])
       (calls (snd (get_dial_iter (low_tick (1 / 10))
          ((get_dial_init 0)\<lparr>num := 1, prnt := True\<rparr>) off_hook)))
   \<and> calls (snd (get_dial_iter (low_tick (1 / 10))
          ((get_dial_init 0)\<lparr>num := 1, prnt := True\<rparr>) off_hook)) =
       [Fired Pickup, Play ''dial.mp3'', Stop Player, Stop Player]"
proof -
  let ?d = "(get_dial_init 0)\<lparr>num := 1, prnt := True\<rparr>"
  have h1: "current_state off_hook = Dialing"
    by code_simp
  have h2: "\<not> pulse (low_tick (1 / 10))"
    by (simp add: low_tick_def)
  have h3: "\<not> last_level ?d" and h4: "prnt ?d"
    by (simp_all add: get_dial_init_def)
  have "calls (snd (get_dial_iter (low_tick (1 / 10)) ?d off_hook)) =
       [Fired Pickup, Play ''dial.mp3'', Stop Player, Stop Player]"
    by code_simp
  with h1 h2 h3 h4 finalization_stops_player [OF h1 h2 h3 h4] show ?thesis
    by simp
qed

end
